theory Spec2Isabelle
  imports Main "HOL-Library.List_Lexorder" "HOL-Library.AList"
begin

section \<open>Python strings\<close>

text \<open>
  A Python \<open>str\<close> is a sequence of Unicode code points; it is modelled as a list of
  naturals, so that \<open>length\<close>, slicing and comparison count what Python counts.
  Comparison of two strings is lexicographic on code points, which is the order of
  \<open>HOL-Library.List_Lexorder\<close>.
\<close>

type_synonym pystr = "nat list"

definition NL :: nat where "NL = 10"
definition CR :: nat where "CR = 13"
definition SP :: nat where "SP = 32"
definition TAB :: nat where "TAB = 9"

text \<open>\<open>str.isspace\<close> on one code point: the 29 code points CPython treats as whitespace.\<close>

definition py_isspace :: "nat \<Rightarrow> bool" where
  "py_isspace c \<longleftrightarrow>
     (9 \<le> c \<and> c \<le> 13) \<or> (28 \<le> c \<and> c \<le> 32) \<or> c = 133 \<or> c = 160 \<or> c = 5760 \<or>
     (8192 \<le> c \<and> c \<le> 8202) \<or> c = 8232 \<or> c = 8233 \<or> c = 8239 \<or> c = 8287 \<or>
     c = 12288"

text \<open>\<open>s.strip()\<close>: whitespace removed at both ends.\<close>

definition strip :: "pystr \<Rightarrow> pystr" where
  "strip s = rev (dropWhile py_isspace (rev (dropWhile py_isspace s)))"

text \<open>\<open>s.replace('\n', ' ')\<close> and \<open>s.replace('\n', '\\n')\<close>.\<close>

definition replace_nl_space :: "pystr \<Rightarrow> pystr" where
  "replace_nl_space s = map (\<lambda>c. if c = NL then SP else c) s"

definition replace_nl_escaped :: "pystr \<Rightarrow> pystr" where
  "replace_nl_escaped s = concat (map (\<lambda>c. if c = NL then [92, 110] else [c]) s)"

text \<open>\<open>s.endswith(suf)\<close>.\<close>

definition endswith :: "pystr \<Rightarrow> pystr \<Rightarrow> bool" where
  "endswith s suf \<longleftrightarrow> length suf \<le> length s \<and> drop (length s - length suf) s = suf"

text \<open>
  Reading a file opened in text mode translates \<open>\r\n\<close> and a lone \<open>\r\<close> to
  \<open>\n\<close> (universal newlines); \<open>readlines\<close> then cuts after every \<open>\n\<close>, each line
  keeping its terminator, the last line possibly without one.
\<close>

fun universal_newlines :: "pystr \<Rightarrow> pystr" where
  "universal_newlines [] = []"
| "universal_newlines [c] = (if c = CR then [NL] else [c])"
| "universal_newlines (c # d # cs) =
     (if c = CR then (if d = NL then NL # universal_newlines cs
                      else NL # universal_newlines (d # cs))
      else c # universal_newlines (d # cs))"

fun split_lines :: "pystr \<Rightarrow> pystr \<Rightarrow> pystr list" where
  "split_lines cur [] = (if cur = [] then [] else [cur])"
| "split_lines cur (c # cs) =
     (if c = NL then (cur @ [c]) # split_lines [] cs else split_lines (cur @ [c]) cs)"

definition readlines :: "pystr \<Rightarrow> pystr list" where
  "readlines text = split_lines [] (universal_newlines text)"

text \<open>The format \<open>{n:04d}\<close> of a non-negative integer: decimal, zero-padded to width at
  least 4 (a number of five digits or more is printed in full).\<close>

fun dec_digits :: "nat \<Rightarrow> pystr" where
  "dec_digits n = (if n < 10 then [48 + n] else dec_digits (n div 10) @ [48 + n mod 10])"

declare dec_digits.simps [simp del]

definition fmt04d :: "nat \<Rightarrow> pystr" where
  "fmt04d n = replicate (4 - length (dec_digits n)) 48 @ dec_digits n"

text \<open>\<open>os.path.join(a, b)\<close> on POSIX with two components.\<close>

definition os_path_join :: "pystr \<Rightarrow> pystr \<Rightarrow> pystr" where
  "os_path_join a b =
     (if b \<noteq> [] \<and> hd b = 47 then b
      else if a = [] \<or> last a = 47 then a @ b
      else a @ [47] @ b)"

section \<open>Configuration\<close>

text \<open>\<open>OUTPUT_DIR = "/data/output"\<close> and the extension \<open>".txt"\<close>, as code points; the
  status marker \<open>"done"\<close>.\<close>

definition OUTPUT_DIR :: pystr where
  "OUTPUT_DIR = [47, 100, 97, 116, 97, 47, 111, 117, 116, 112, 117, 116]"

definition dot_txt :: pystr where
  "dot_txt = [46, 116, 120, 116]"

definition done_marker :: pystr where
  "done_marker = [100, 111, 110, 101]"

section \<open>Files\<close>

text \<open>
  The program works on three places of the file system, all fixed by its configuration:
  the directory \<open>OUTPUT_DIR\<close>, the checkpoint file and the consolidated file
  \<open>TSV_FILE\<close>, which lies outside \<open>OUTPUT_DIR\<close>. The directory is an association
  list from file name to text, in the order in which \<open>os.listdir\<close> enumerates it (an
  order the operating system chooses). The checkpoint file holds a JSON object from
  titles to status strings, written and read by the standard \<open>json\<close> module; it is
  modelled by the mapping it encodes, \<open>Corrupt\<close> standing for a file that
  \<open>json.load\<close> rejects.
\<close>

datatype error = IndexError | JSONDecodeError | FileNotFoundError

type_synonym checkpoint = "pystr \<rightharpoonup> pystr"

datatype ckpt_file = Missing | Corrupt | Stored checkpoint

record fs =
  output_dir :: "(pystr \<times> pystr) list"
  checkpoint_file :: ckpt_file
  tsv_file :: "pystr option"

section \<open>Checkpoint store\<close>

definition load_checkpoint :: "fs \<Rightarrow> error + checkpoint" where
  "load_checkpoint s =
     (case checkpoint_file s of
        Missing \<Rightarrow> Inr Map.empty
      | Corrupt \<Rightarrow> Inl JSONDecodeError
      | Stored m \<Rightarrow> Inr m)"

definition save_checkpoint :: "checkpoint \<Rightarrow> fs \<Rightarrow> fs" where
  "save_checkpoint data s = s\<lparr>checkpoint_file := Stored data\<rparr>"

section \<open>Request worker\<close>

text \<open>
  What one attempt meets is decided outside the program: either the limiter, the POST or
  the timeout raises (\<open>Raised\<close>), or a response arrives. A response carries its status,
  what \<open>data['choices'][0]['message']['content']\<close> yields (\<open>None\<close> when
  \<open>resp.json()\<close> or one of the lookups raises), and whether opening and writing the
  output file succeeds at that moment.
\<close>

datatype reply = Raised | Response int "pystr option" bool

type_synonym result = "pystr \<times> pystr"

datatype attempt_result = Completed result fs | RateLimited | Excepted

definition output_name :: "pystr \<Rightarrow> nat \<Rightarrow> pystr" where
  "output_name title chapter_num = (fmt04d chapter_num @ [SP] @ title) @ dot_txt"

definition output_path :: "pystr \<Rightarrow> nat \<Rightarrow> pystr" where
  "output_path title chapter_num = os_path_join OUTPUT_DIR (output_name title chapter_num)"

text \<open>The body of the \<open>try\<close> block, for one attempt.\<close>

definition try_once :: "reply \<Rightarrow> pystr \<Rightarrow> nat \<Rightarrow> fs \<Rightarrow> attempt_result" where
  "try_once r title chapter_num s =
     (case r of
        Raised \<Rightarrow> Excepted
      | Response status content writable \<Rightarrow>
          if status = 429 then RateLimited
          else if status \<noteq> 200 then Excepted
          else (case content of
                  None \<Rightarrow> Excepted
                | Some raw \<Rightarrow>
                    let result = strip raw in
                    if writable then
                      Completed (title, title @ [TAB] @ replace_nl_escaped result)
                        (s\<lparr>output_dir :=
                             AList.update (output_name title chapter_num)
                               (title @ [NL, NL] @ result) (output_dir s)\<rparr>)
                    else Excepted))"

text \<open>The loop \<open>for attempt in range(1, max_retries + 1)\<close>, entered at \<open>attempt\<close>. A 429
  goes on with the next attempt; when the range is used up the function falls off its
  end and returns \<open>None\<close>. The \<open>except\<close> clause returns \<open>None\<close> on the last attempt.\<close>

function attempts ::
  "(nat \<Rightarrow> reply) \<Rightarrow> pystr \<Rightarrow> nat \<Rightarrow> nat \<Rightarrow> nat \<Rightarrow> fs \<Rightarrow> result option \<times> fs" where
  "attempts env title chapter_num max_retries attempt s =
     (if max_retries < attempt then (None, s)
      else (case try_once (env attempt) title chapter_num s of
              Completed r s' \<Rightarrow> (Some r, s')
            | RateLimited \<Rightarrow> attempts env title chapter_num max_retries (Suc attempt) s
            | Excepted \<Rightarrow>
                if attempt = max_retries then (None, s)
                else attempts env title chapter_num max_retries (Suc attempt) s))"
  by pat_completeness auto
termination
  by (relation "measure (\<lambda>(env, title, chapter_num, max_retries, attempt, s).
                  Suc max_retries - attempt)") auto

declare attempts.simps [simp del]

definition call_openai_format ::
  "(nat \<Rightarrow> reply) \<Rightarrow> pystr \<Rightarrow> pystr \<Rightarrow> nat \<Rightarrow> nat \<Rightarrow> fs \<Rightarrow> result option \<times> fs" where
  "call_openai_format env title body chapter_num max_retries s =
     attempts env title chapter_num max_retries 1 s"

section \<open>Batch orchestrator\<close>

text \<open>
  \<open>parts\<close> is the list \<open>re.split(CHAPTER_PATTERN, content)\<close>: text before the first
  heading, then heading and body in turn. The loop reads \<open>parts[i]\<close> and
  \<open>parts[i+1]\<close> for \<open>i = 1, 3, ...\<close>; a heading with no body after it raises
  \<open>IndexError\<close>. The pattern has one group, so \<open>re.split\<close> returns a list of odd
  length and that case does not arise from a document; the properties below that need
  it assume an odd length.
\<close>

type_synonym task = "pystr \<times> pystr \<times> nat"

text \<open>\<open>MAX_CHAPTERS and chapter_num > MAX_CHAPTERS\<close>: \<open>None\<close> and \<open>0\<close> are falsy.\<close>

definition cap_reached :: "int option \<Rightarrow> nat \<Rightarrow> bool" where
  "cap_reached max_chapters chapter_num =
     (case max_chapters of None \<Rightarrow> False | Some m \<Rightarrow> m \<noteq> 0 \<and> m < int chapter_num)"

fun schedule_loop ::
  "checkpoint \<Rightarrow> int option \<Rightarrow> pystr list \<Rightarrow> nat \<Rightarrow> task list \<Rightarrow> error + task list" where
  "schedule_loop checkpoint max_chapters [] chapter_num tasks = Inr tasks"
| "schedule_loop checkpoint max_chapters [h] chapter_num tasks = Inl IndexError"
| "schedule_loop checkpoint max_chapters (h # b # rest) chapter_num tasks =
     (let title = strip h; body = replace_nl_space (strip b) in
      if checkpoint title \<noteq> None then
        schedule_loop checkpoint max_chapters rest chapter_num tasks
      else if cap_reached max_chapters (Suc chapter_num) then Inr tasks
      else schedule_loop checkpoint max_chapters rest (Suc chapter_num)
             (tasks @ [(title, body, Suc chapter_num)]))"

definition schedule :: "checkpoint \<Rightarrow> int option \<Rightarrow> pystr list \<Rightarrow> error + task list" where
  "schedule checkpoint max_chapters parts =
     schedule_loop checkpoint max_chapters (drop 1 parts) 0 []"

text \<open>
  \<open>asyncio.gather\<close>: every scheduled worker runs to its end, and the results come back
  in the order of the tasks. Each worker writes one file whose name starts with its own
  chapter number, so the workers touch different files and the state after all of them
  does not depend on how they interleave; the model runs them one after the other.
  \<open>world n\<close> is what the worker with chapter number \<open>n\<close> meets at each attempt.
\<close>

fun gather :: "(nat \<Rightarrow> nat \<Rightarrow> reply) \<Rightarrow> task list \<Rightarrow> fs \<Rightarrow> result option list \<times> fs" where
  "gather world [] s = ([], s)"
| "gather world ((title, body, chapter_num) # ts) s =
     (case call_openai_format (world chapter_num) title body chapter_num 5 s of
        (r, s1) \<Rightarrow> (case gather world ts s1 of (rs, s2) \<Rightarrow> (r # rs, s2)))"

fun mark_done :: "checkpoint \<Rightarrow> result option list \<Rightarrow> checkpoint" where
  "mark_done checkpoint [] = checkpoint"
| "mark_done checkpoint (None # rs) = mark_done checkpoint rs"
| "mark_done checkpoint (Some (title, line) # rs) =
     mark_done (checkpoint(title \<mapsto> done_marker)) rs"

section \<open>Aggregator\<close>

fun read_entries :: "(pystr \<times> pystr) list \<Rightarrow> pystr list \<Rightarrow> error + pystr list" where
  "read_entries d [] = Inr []"
| "read_entries d (filename # rest) =
     (if endswith filename dot_txt then
        (case map_of d filename of
           None \<Rightarrow> Inl FileNotFoundError
         | Some text \<Rightarrow>
             (case readlines text of
                [] \<Rightarrow> Inl IndexError
              | l0 # ls \<Rightarrow>
                  (let original_title = drop 4 (strip l0);
                       content = strip (concat (drop 2 (l0 # ls)))
                   in case read_entries d rest of
                        Inl e \<Rightarrow> Inl e
                      | Inr entries \<Rightarrow>
                          Inr ((original_title @ [NL] @ content @ [NL]) # entries))))
      else read_entries d rest)"

definition regenerate_tsv_from_output :: "fs \<Rightarrow> error + fs" where
  "regenerate_tsv_from_output s =
     (case read_entries (output_dir s) (sort (map fst (output_dir s))) of
        Inl e \<Rightarrow> Inl e
      | Inr entries \<Rightarrow>
          Inr (s\<lparr>tsv_file := Some (concat (map (\<lambda>line. line @ [NL]) entries))\<rparr>))"

section \<open>A whole run\<close>

text \<open>The run ends with the file system it leaves and the exception, if any, that
  stopped it. Reading the input file and splitting it give \<open>parts\<close>; the desktop
  notification at the end comes after every file is written and touches none, and is
  left out.\<close>

definition split_and_process_async ::
  "int option \<Rightarrow> (nat \<Rightarrow> nat \<Rightarrow> reply) \<Rightarrow> pystr list \<Rightarrow> fs \<Rightarrow> error option \<times> fs" where
  "split_and_process_async max_chapters world parts s =
     (case load_checkpoint s of
        Inl e \<Rightarrow> (Some e, s)
      | Inr checkpoint \<Rightarrow>
          (case schedule checkpoint max_chapters parts of
             Inl e \<Rightarrow> (Some e, s)
           | Inr tasks \<Rightarrow>
               (case gather world tasks s of
                  (results, s1) \<Rightarrow>
                    (let s2 = save_checkpoint (mark_done checkpoint results) s1 in
                     case regenerate_tsv_from_output s2 of
                       Inl e \<Rightarrow> (Some e, s2)
                     | Inr s3 \<Rightarrow> (None, s3)))))"

section \<open>Notions used to state the properties\<close>

text \<open>The chapters of a document, as the loop reads them from \<open>parts[1:]\<close>: stripped
  heading, and body stripped and with its newlines turned into spaces.\<close>

fun chapters :: "pystr list \<Rightarrow> (pystr \<times> pystr) list" where
  "chapters (h # b # rest) = (strip h, replace_nl_space (strip b)) # chapters rest"
| "chapters [h] = []"
| "chapters [] = []"

text \<open>The chapters whose title is not in the checkpoint, in document order.\<close>

definition pending :: "checkpoint \<Rightarrow> pystr list \<Rightarrow> (pystr \<times> pystr) list" where
  "pending checkpoint parts = filter (\<lambda>(title, body). checkpoint title = None) (chapters (drop 1 parts))"

text \<open>Chapters numbered consecutively after \<open>n\<close>.\<close>

fun number :: "nat \<Rightarrow> (pystr \<times> pystr) list \<Rightarrow> task list" where
  "number n [] = []"
| "number n ((title, body) # cs) = (title, body, Suc n) # number (Suc n) cs"

text \<open>An attempt fails when it does not reach the \<open>return\<close> of the \<open>try\<close> block; a
  worker exhausts its budget when every attempt from 1 to \<open>max_retries\<close> fails.\<close>

definition attempt_fails :: "reply \<Rightarrow> bool" where
  "attempt_fails r =
     (case r of Raised \<Rightarrow> True
      | Response status content writable \<Rightarrow> status \<noteq> 200 \<or> content = None \<or> \<not> writable)"

definition exhausts :: "(nat \<Rightarrow> reply) \<Rightarrow> nat \<Rightarrow> bool" where
  "exhausts env max_retries = list_all (\<lambda>a. attempt_fails (env a)) [1..<Suc max_retries]"

text \<open>Several runs one after the other, each with its own cap, replies and document;
  and the property that every value of the stored checkpoint is \<open>"done"\<close>.\<close>

fun run_many :: "(int option \<times> (nat \<Rightarrow> nat \<Rightarrow> reply) \<times> pystr list) list \<Rightarrow> fs \<Rightarrow> fs" where
  "run_many [] s = s"
| "run_many ((max_chapters, world, parts) # later) s =
     run_many later (snd (split_and_process_async max_chapters world parts s))"

definition values_done :: "fs \<Rightarrow> bool" where
  "values_done s =
     (case checkpoint_file s of Stored m \<Rightarrow> (\<forall>v\<in>ran m. v = done_marker) | _ \<Rightarrow> True)"

section \<open>A small document\<close>

text \<open>
  The document of two chapters with the headings \<open>U+7B2C 1 U+7AE0 ...\<close>
  (chapter 1, with a parenthesised subtitle in full-width brackets) and the same for
  chapter 2, each followed by a body of three characters and a newline, as
  \<open>re.split\<close> cuts it; a file system before the first run, and one whose checkpoint
  already holds the first title.
\<close>

definition title1 :: pystr where
  "title1 = [31532, 49, 31456, 32, 36215, 65288, 24207, 65289]"
definition title2 :: pystr where
  "title2 = [31532, 50, 31456, 32, 32456, 65288, 23614, 65289]"
definition text1 :: pystr where "text1 = [27491, 25991, 19968]"
definition text2 :: pystr where "text2 = [27491, 25991, 20108]"
definition example_parts :: "pystr list" where
  "example_parts = [[], title1, text1 @ [10], title2, text2 @ [10]]"
definition fresh :: fs where
  "fresh = \<lparr>output_dir = [], checkpoint_file = Missing, tsv_file = None\<rparr>"
definition resumed :: fs where
  "resumed = \<lparr>output_dir = [], checkpoint_file = Stored [title1 \<mapsto> done_marker], tsv_file = None\<rparr>"

definition world_ok :: "nat \<Rightarrow> nat \<Rightarrow> reply" where
  "world_ok n a = Response 200 (Some (if n = 1 then text1 else text2)) True"

definition world_text2 :: "nat \<Rightarrow> nat \<Rightarrow> reply" where
  "world_text2 n a = Response 200 (Some text2) True"


text \<open>The output directory after both chapters succeeded, enumerated in two orders; the
  second state also has a stale consolidated file. \<open>consolidated\<close> is the text the
  aggregator builds from these files.\<close>

definition listing_a :: fs where
  "listing_a = \<lparr>output_dir = [(output_name title1 1, title1 @ [NL, NL] @ text1),
                               (output_name title2 2, title2 @ [NL, NL] @ text2)],
                 checkpoint_file = Missing, tsv_file = None\<rparr>"

definition listing_b :: fs where
  "listing_b = \<lparr>output_dir = [(output_name title2 2, title2 @ [NL, NL] @ text2),
                               (output_name title1 1, title1 @ [NL, NL] @ text1)],
                 checkpoint_file = Corrupt, tsv_file = Some text1\<rparr>"

definition consolidated :: pystr where
  "consolidated = [36215, 65288, 24207, 65289] @ [NL] @ text1 @ [NL, NL]
                @ [32456, 65288, 23614, 65289] @ [NL] @ text2 @ [NL, NL]"

section \<open>The scheduling loop\<close>

lemma schedule_loop_new:
  "schedule_loop cp cap ps n acc = Inr tasks \<Longrightarrow> \<forall>t\<in>set acc. cp (fst t) = None
     \<Longrightarrow> \<forall>t\<in>set tasks. cp (fst t) = None"
  by (induction cp cap ps n acc rule: schedule_loop.induct) (auto simp: Let_def split: if_splits)

lemma schedule_loop_uncapped:
  "\<forall>k. \<not> cap_reached cap k \<Longrightarrow> even (length ps) \<Longrightarrow>
     schedule_loop cp cap ps n acc =
       Inr (acc @ number n (filter (\<lambda>(title, body). cp title = None) (chapters ps)))"
  by (induction cp cap ps n acc rule: schedule_loop.induct) (auto simp: Let_def)

lemma schedule_loop_capped:
  "0 < m \<Longrightarrow> even (length ps) \<Longrightarrow>
     schedule_loop cp (Some m) ps n acc =
       Inr (acc @ number n (take (nat m - n) (filter (\<lambda>(title, body). cp title = None) (chapters ps))))"
proof (induction cp "Some m" ps n acc rule: schedule_loop.induct)
  case (1 checkpoint chapter_num tasks)
  then show ?case by simp
next
  case (2 checkpoint h chapter_num tasks)
  then show ?case by simp
next
  case (3 checkpoint h b rest chapter_num tasks)
  show ?case
  proof (cases "checkpoint (strip h) = None")
    case False
    then obtain v where "checkpoint (strip h) = Some v" by auto
    with 3 show ?thesis by (simp add: Let_def)
  next
    case True
    show ?thesis
    proof (cases "cap_reached (Some m) (Suc chapter_num)")
      case reached: True
      then have "nat m - chapter_num = 0" by (auto simp: cap_reached_def)
      with True reached show ?thesis by (simp add: Let_def)
    next
      case notyet: False
      then have "nat m - chapter_num = Suc (nat m - Suc chapter_num)"
        using 3(3) by (auto simp: cap_reached_def)
      with True notyet 3 show ?thesis by (simp add: Let_def)
    qed
  qed
qed

lemma schedule_loop_cap0:
  "schedule_loop cp (Some 0) ps n acc = schedule_loop cp None ps n acc"
  by (induction cp "None :: int option" ps n acc rule: schedule_loop.induct)
     (auto simp: Let_def cap_reached_def)

lemma length_number: "length (number n cs) = length cs"
  by (induction n cs rule: number.induct) auto

lemma number_untag: "map (\<lambda>(title, body, k). (title, body)) (number n cs) = cs"
  by (induction n cs rule: number.induct) auto

lemma number_nums: "map (\<lambda>(title, body, k). k) (number n cs) = [Suc n..<Suc n + length cs]"
  by (induction n cs rule: number.induct) (auto simp: upt_rec)

section \<open>Evaluation on the small document\<close>

lemma strip_title1: "strip title1 = title1"
  by (simp add: strip_def title1_def py_isspace_def)
lemma strip_title2: "strip title2 = title2"
  by (simp add: strip_def title2_def py_isspace_def)
lemma body_text1: "replace_nl_space (strip (text1 @ [10])) = text1"
  by (simp add: strip_def text1_def py_isspace_def replace_nl_space_def NL_def)
lemma body_text2: "replace_nl_space (strip (text2 @ [10])) = text2"
  by (simp add: strip_def text2_def py_isspace_def replace_nl_space_def NL_def)
lemma titles_differ: "title1 \<noteq> title2" "title2 \<noteq> title1"
  by (simp_all add: title1_def title2_def)

lemmas example_simps = strip_title1 strip_title2 body_text1 body_text2 titles_differ

lemma schedule_fresh:
  "schedule Map.empty None example_parts = Inr [(title1, text1, 1), (title2, text2, 2)]"
  by (simp add: schedule_def example_parts_def cap_reached_def example_simps)

lemma schedule_resumed:
  "schedule [title1 \<mapsto> done_marker] None example_parts = Inr [(title2, text2, 1)]"
  by (simp add: schedule_def example_parts_def cap_reached_def example_simps)

section \<open>The worker\<close>

lemma try_once_fails:
  "attempt_fails r \<Longrightarrow> try_once r title n s = RateLimited \<or> try_once r title n s = Excepted"
  by (auto simp: attempt_fails_def try_once_def Let_def split: reply.splits option.splits)

lemma try_once_completed:
  "try_once r title n s = Completed x s' \<Longrightarrow>
     fst x = title \<and> checkpoint_file s' = checkpoint_file s \<and> tsv_file s' = tsv_file s"
  by (auto simp: try_once_def Let_def split: reply.splits option.splits if_splits)

lemma exhausts_iff:
  "exhausts env max_retries \<longleftrightarrow> (\<forall>a. 1 \<le> a \<and> a \<le> max_retries \<longrightarrow> attempt_fails (env a))"
  by (auto simp: exhausts_def list_all_iff)

lemma attempts_all_fail:
  "\<forall>a. attempt \<le> a \<and> a \<le> max_retries \<longrightarrow> attempt_fails (env a) \<Longrightarrow>
     attempts env title n max_retries attempt s = (None, s)"
proof (induction env title n max_retries attempt s rule: attempts.induct)
  case (1 env title chapter_num max_retries attempt s)
  show ?case
  proof (cases "max_retries < attempt")
    case True
    then show ?thesis by (simp add: attempts.simps)
  next
    case False
    then have "attempt_fails (env attempt)" using "1.prems" by simp
    then consider "try_once (env attempt) title chapter_num s = RateLimited"
      | "try_once (env attempt) title chapter_num s = Excepted"
      using try_once_fails by blast
    then show ?thesis
    proof cases
      case 1
      with False "1.IH"(1) "1.prems" show ?thesis
        by (subst attempts.simps) simp
    next
      case 2
      with False "1.IH"(2) "1.prems" show ?thesis
        by (subst attempts.simps) simp
    qed
  qed
qed

lemma attempts_frame:
  "attempts env title n max_retries attempt s = (r, s') \<Longrightarrow>
     checkpoint_file s' = checkpoint_file s \<and> tsv_file s' = tsv_file s
     \<and> (\<forall>x. r = Some x \<longrightarrow> fst x = title)"
proof (induction env title n max_retries attempt s rule: attempts.induct)
  case (1 env title chapter_num max_retries attempt s)
  show ?case
  proof (cases "max_retries < attempt")
    case True
    with "1.prems" show ?thesis by (simp add: attempts.simps)
  next
    case False
    show ?thesis
    proof (cases "try_once (env attempt) title chapter_num s")
      case (Completed x s1)
      with False "1.prems" try_once_completed [OF Completed] show ?thesis
        by (auto simp: attempts.simps)
    next
      case RateLimited
      with False "1.prems" "1.IH"(1) show ?thesis
        by (simp add: attempts.simps)
    next
      case Excepted
      with False "1.prems" "1.IH"(2) show ?thesis
        by (auto simp: attempts.simps split: if_splits)
    qed
  qed
qed

section \<open>All workers of a run\<close>

lemma gather_frame:
  "gather world tasks s = (rs, s') \<Longrightarrow>
     checkpoint_file s' = checkpoint_file s \<and> tsv_file s' = tsv_file s"
proof (induction world tasks s arbitrary: rs s' rule: gather.induct)
  case (1 world s)
  then show ?case by simp
next
  case (2 world title body chapter_num ts s)
  obtain r s1 where w: "call_openai_format (world chapter_num) title body chapter_num 5 s = (r, s1)"
    by (cases "call_openai_format (world chapter_num) title body chapter_num 5 s")
  obtain rs1 s2 where g: "gather world ts s1 = (rs1, s2)"
    by (cases "gather world ts s1")
  from "2.prems" w g have "s' = s2" by simp
  moreover from "2.IH" [OF w [symmetric] g]
  have "checkpoint_file s2 = checkpoint_file s1 \<and> tsv_file s2 = tsv_file s1" .
  moreover from w have "checkpoint_file s1 = checkpoint_file s \<and> tsv_file s1 = tsv_file s"
    by (auto simp: call_openai_format_def dest: attempts_frame)
  ultimately show ?case by simp
qed

text \<open>A result carries the title of a task whose worker did not exhaust its budget.\<close>

lemma gather_results:
  "gather world tasks s = (rs, s') \<Longrightarrow> Some (t, line) \<in> set rs \<Longrightarrow>
     \<exists>body n. (t, body, n) \<in> set tasks \<and> \<not> exhausts (world n) 5"
proof (induction world tasks s arbitrary: rs s' rule: gather.induct)
  case (1 world s)
  then show ?case by simp
next
  case (2 world title body chapter_num ts s)
  obtain r s1 where w: "call_openai_format (world chapter_num) title body chapter_num 5 s = (r, s1)"
    by (cases "call_openai_format (world chapter_num) title body chapter_num 5 s")
  obtain rs1 s2 where g: "gather world ts s1 = (rs1, s2)"
    by (cases "gather world ts s1")
  from "2.prems"(1) w g have rs: "rs = r # rs1" by simp
  show ?case
  proof (cases "Some (t, line) \<in> set rs1")
    case True
    from "2.IH" [OF w [symmetric] g True] show ?thesis by auto
  next
    case False
    with "2.prems"(2) rs have r: "r = Some (t, line)" by simp
    with w have "t = title"
      by (auto simp: call_openai_format_def dest: attempts_frame)
    moreover have "\<not> exhausts (world chapter_num) 5"
    proof
      assume "exhausts (world chapter_num) 5"
      then have "attempts (world chapter_num) title chapter_num 5 1 s = (None, s)"
        by (intro attempts_all_fail) (simp add: exhausts_iff)
      with w r show False by (simp add: call_openai_format_def)
    qed
    ultimately show ?thesis by auto
  qed
qed

section \<open>Marking results in the checkpoint\<close>

lemma mark_done_apply:
  "mark_done cp rs k = (if \<exists>line. Some (k, line) \<in> set rs then Some done_marker else cp k)"
proof (induction cp rs rule: mark_done.induct)
  case (1 checkpoint)
  show ?case by simp
next
  case (2 checkpoint rs)
  then show ?case by simp
next
  case (3 checkpoint title line rs)
  have ih: "mark_done (checkpoint(title \<mapsto> done_marker)) rs k =
      (if \<exists>line. Some (k, line) \<in> set rs then Some done_marker
       else (checkpoint(title \<mapsto> done_marker)) k)"
    by (rule "3.IH")
  show ?case
  proof (cases "k = title")
    case True
    with ih have "mark_done (checkpoint(title \<mapsto> done_marker)) rs k = Some done_marker"
      by simp
    with True show ?thesis by auto
  next
    case False
    with ih show ?thesis by auto
  qed
qed

lemma regenerate_frame:
  "regenerate_tsv_from_output s = Inr s' \<Longrightarrow>
     checkpoint_file s' = checkpoint_file s \<and> output_dir s' = output_dir s"
  by (auto simp: regenerate_tsv_from_output_def split: sum.splits)

lemma run_saves:
  assumes "load_checkpoint s = Inr cp" and "schedule cp cap parts = Inr tasks"
  shows "checkpoint_file (snd (split_and_process_async cap world parts s)) =
           Stored (mark_done cp (fst (gather world tasks s)))"
proof -
  obtain rs s1 where g: "gather world tasks s = (rs, s1)" by (cases "gather world tasks s")
  show ?thesis
  proof (cases "regenerate_tsv_from_output (save_checkpoint (mark_done cp rs) s1)")
    case (Inl e)
    with assms g show ?thesis
      by (simp add: split_and_process_async_def Let_def save_checkpoint_def)
  next
    case (Inr s3)
    with assms g regenerate_frame [OF Inr] show ?thesis
      by (simp add: split_and_process_async_def Let_def save_checkpoint_def)
  qed
qed

section \<open>Output names\<close>















section \<open>Files written by the workers\<close>





section \<open>Reading back a file a worker wrote\<close>

lemma universal_newlines_Cons:
  "c \<noteq> CR \<Longrightarrow> universal_newlines (c # xs) = c # universal_newlines xs"
  by (cases xs) simp_all

lemma universal_newlines_append:
  "CR \<notin> set t \<Longrightarrow> universal_newlines (t @ xs) = t @ universal_newlines xs"
  by (induction t) (simp_all add: universal_newlines_Cons)

lemma split_lines_append:
  "NL \<notin> set t \<Longrightarrow> split_lines cur (t @ xs) = split_lines (cur @ t) xs"
  by (induction t arbitrary: cur) simp_all

lemma concat_split_lines: "concat (split_lines cur xs) = cur @ xs"
  by (induction xs arbitrary: cur) simp_all

lemma readlines_worker_file:
  assumes "NL \<notin> set t" and "CR \<notin> set t"
  shows "readlines (t @ [NL, NL] @ r) = (t @ [NL]) # [NL] # readlines r"
proof -
  have nl: "NL \<noteq> CR" by (simp add: NL_def CR_def)
  have "universal_newlines (t @ [NL, NL] @ r) = t @ NL # NL # universal_newlines r"
    using assms(2) nl by (simp add: universal_newlines_append universal_newlines_Cons)
  then show ?thesis
    using assms(1) by (simp add: readlines_def split_lines_append)
qed

lemma strip_title_line:
  assumes "t \<noteq> []" and "\<not> py_isspace (hd t)" and "\<not> py_isspace (last t)"
  shows "strip (t @ [NL]) = t"
proof -
  from assms(1) obtain x xs where t: "t = x # xs" by (cases t) auto
  with assms(2) have front: "dropWhile py_isspace (t @ [NL]) = t @ [NL]" by simp
  from assms(1) obtain ys y where "t = ys @ [y]" by (cases t rule: rev_cases) auto
  with assms(3) have rear: "dropWhile py_isspace (rev t) = rev t" by simp
  have "py_isspace NL" by (simp add: py_isspace_def NL_def)
  with front rear show ?thesis by (simp add: strip_def)
qed

text \<open>The block the aggregator builds from the file that a worker wrote for a title
  \<open>t\<close> (one line, no whitespace at its ends) and a result \<open>r\<close>: it begins with
  \<open>t\<close> less its first four characters.\<close>

lemma block_of_worker_file:
  assumes "endswith name dot_txt" and "map_of d name = Some (t @ [NL, NL] @ r)"
    and "NL \<notin> set t" and "CR \<notin> set t"
    and "t \<noteq> []" and "\<not> py_isspace (hd t)" and "\<not> py_isspace (last t)"
  shows "read_entries d [name] = Inr [drop 4 t @ [NL] @ strip (universal_newlines r) @ [NL]]"
proof -
  have "concat (readlines r) = universal_newlines r"
    by (simp add: readlines_def concat_split_lines)
  then show ?thesis
    using assms(1,2) readlines_worker_file [OF assms(3,4), of r]
      strip_title_line [OF assms(5,6,7)]
    by (simp add: Let_def)
qed

section \<open>Runs one after the other\<close>

lemma mark_done_values:
  "\<forall>v\<in>ran cp. v = done_marker \<Longrightarrow> \<forall>v\<in>ran (mark_done cp rs). v = done_marker"
  by (auto simp: ran_def mark_done_apply split: if_splits)

lemma run_keeps_values_done:
  assumes "values_done s"
  shows "values_done (snd (split_and_process_async max_chapters world parts s))"
proof (cases "load_checkpoint s")
  case (Inl e)
  with assms show ?thesis by (simp add: split_and_process_async_def)
next
  case (Inr cp)
  from Inr assms have cp: "\<forall>v\<in>ran cp. v = done_marker"
    by (auto simp: load_checkpoint_def values_done_def split: ckpt_file.splits)
  show ?thesis
  proof (cases "schedule cp max_chapters parts")
    case (Inl e)
    with Inr assms show ?thesis by (simp add: split_and_process_async_def)
  next
    case sched: (Inr tasks)
    from run_saves [OF Inr sched, of world] mark_done_values [OF cp]
    show ?thesis by (simp add: values_done_def)
  qed
qed

text \<open>Starting with no checkpoint file, every value of every checkpoint that any number
  of runs leaves is \<open>"done"\<close>.\<close>

lemma run_many_values_done: "values_done s \<Longrightarrow> values_done (run_many runs s)"
  by (induction runs s rule: run_many.induct) (simp_all add: run_keeps_values_done)

lemma saved_values_are_done:
  assumes "checkpoint_file s = Missing" and "checkpoint_file (run_many runs s) = Stored m"
    and "m k = Some v"
  shows "v = done_marker"
proof -
  from assms(1) have "values_done s" by (simp add: values_done_def)
  then have "values_done (run_many runs s)" by (rule run_many_values_done)
  with assms(2,3) show ?thesis by (auto simp: values_done_def ran_def)
qed

section \<open>Scheduling properties\<close>

text \<open>
  Claim C3. A title that is in the checkpoint mapping loaded at the start of a run is the
  title of no task the run schedules, so no worker is invoked for that chapter: workers
  are invoked by \<open>gather\<close> on the scheduled tasks only.
\<close>
theorem checkpointed_never_dispatched:
  assumes "load_checkpoint s = Inr checkpoint"
    and "schedule checkpoint max_chapters parts = Inr tasks"
    and "checkpoint title \<noteq> None"
  shows "title \<notin> fst ` set tasks"
proof -
  have "\<forall>t\<in>set tasks. checkpoint (fst t) = None"
    using assms(2) schedule_loop_new [of checkpoint max_chapters "drop 1 parts" 0 "[]" tasks]
    by (simp add: schedule_def)
  with assms(3) show ?thesis by auto
qed

theorem checkpointed_never_dispatched_witness:
  "load_checkpoint resumed = Inr [title1 \<mapsto> done_marker]
   \<and> schedule [title1 \<mapsto> done_marker] None example_parts = Inr [(title2, text2, 1)]
   \<and> [title1 \<mapsto> done_marker] title1 \<noteq> None
   \<and> title1 \<notin> fst ` set [(title2, text2, 1::nat)]"
proof -
  have a: "load_checkpoint resumed = Inr [title1 \<mapsto> done_marker]"
    by (simp add: load_checkpoint_def resumed_def)
  have b: "schedule [title1 \<mapsto> done_marker] None example_parts = Inr [(title2, text2, 1)]"
    by (rule schedule_resumed)
  have c: "[title1 \<mapsto> done_marker] title1 \<noteq> None" by simp
  show ?thesis using a b c checkpointed_never_dispatched [OF a b c] by simp
qed

text \<open>
  Claim C6. With a positive chapter cap \<open>m\<close>, the run schedules exactly
  \<open>min m (number of chapters not in the checkpoint)\<close> workers; they are the first such
  chapters in document order, numbered from 1.
\<close>
theorem cap_schedules_first_pending:
  assumes "odd (length parts)" and "0 < m"
  shows "\<exists>tasks. schedule checkpoint (Some m) parts = Inr tasks
           \<and> length tasks = min (nat m) (length (pending checkpoint parts))
           \<and> map (\<lambda>(title, body, k). (title, body)) tasks = take (nat m) (pending checkpoint parts)
           \<and> map (\<lambda>(title, body, k). k) tasks = [1..<Suc (length tasks)]"
proof -
  from assms(1) have ev: "even (length (drop 1 parts))" by (cases parts) auto
  let ?first = "take (nat m) (pending checkpoint parts)"
  have "schedule checkpoint (Some m) parts = Inr (number 0 ?first)"
    using schedule_loop_capped [OF assms(2) ev, of checkpoint 0 "[]"]
    by (simp add: schedule_def pending_def)
  moreover have "length (number 0 ?first) = min (nat m) (length (pending checkpoint parts))"
    by (simp add: length_number min.commute)
  moreover have "map (\<lambda>(title, body, k). (title, body)) (number 0 ?first) = ?first"
    by (rule number_untag)
  moreover have "map (\<lambda>(title, body, k). k) (number 0 ?first) = [1..<Suc (length (number 0 ?first))]"
    by (simp add: number_nums length_number)
  ultimately show ?thesis by blast
qed

lemma pending_fresh: "pending Map.empty example_parts = [(title1, text1), (title2, text2)]"
  by (simp add: pending_def example_parts_def example_simps)

theorem cap_schedules_first_pending_witness:
  "odd (length example_parts) \<and> (0::int) < 1
   \<and> schedule Map.empty (Some 1) example_parts = Inr [(title1, text1, 1)]
   \<and> min (nat 1) (length (pending Map.empty example_parts)) = 1
   \<and> take (nat 1) (pending Map.empty example_parts) = [(title1, text1)]"
proof -
  have a: "odd (length example_parts)" by (simp add: example_parts_def)
  have b: "(0::int) < 1" by simp
  have c: "schedule Map.empty (Some 1) example_parts = Inr [(title1, text1, 1)]"
    using cap_schedules_first_pending [OF a b, of Map.empty]
    by (auto simp: pending_fresh length_Suc_conv)
  show ?thesis using a b c by (simp add: pending_fresh)
qed

text \<open>
  Claim C10. A chapter cap of 0 truncates nothing: the schedule is the one of the unset
  cap, and it holds every chapter that is not in the checkpoint.
\<close>
theorem cap_zero_is_no_cap:
  assumes "odd (length parts)"
  shows "schedule checkpoint (Some 0) parts = schedule checkpoint None parts
         \<and> schedule checkpoint (Some 0) parts = Inr (number 0 (pending checkpoint parts))"
proof -
  from assms have ev: "even (length (drop 1 parts))" by (cases parts) auto
  have "schedule checkpoint (Some 0) parts = schedule checkpoint None parts"
    by (simp add: schedule_def schedule_loop_cap0)
  moreover have "schedule checkpoint None parts = Inr (number 0 (pending checkpoint parts))"
    using schedule_loop_uncapped [OF _ ev, of None checkpoint 0 "[]"]
    by (simp add: schedule_def pending_def cap_reached_def)
  ultimately show ?thesis by simp
qed

theorem cap_zero_is_no_cap_witness:
  "odd (length example_parts)
   \<and> schedule Map.empty (Some 0) example_parts = Inr [(title1, text1, 1), (title2, text2, 2)]"
proof -
  have a: "odd (length example_parts)" by (simp add: example_parts_def)
  show ?thesis using a cap_zero_is_no_cap [OF a, of Map.empty, THEN conjunct2]
    by (simp add: pending_fresh)
qed

text \<open>
  Claim C7. When no checkpoint file exists, \<open>load_checkpoint\<close> returns the empty
  mapping instead of raising, and with it the run schedules every chapter of the
  document, as if none were done.
\<close>
theorem missing_checkpoint_is_empty:
  assumes "checkpoint_file s = Missing" and "odd (length parts)"
  shows "load_checkpoint s = Inr Map.empty
         \<and> schedule Map.empty None parts = Inr (number 0 (chapters (drop 1 parts)))"
proof -
  from assms(2) have ev: "even (length (drop 1 parts))" by (cases parts) auto
  have "load_checkpoint s = Inr Map.empty"
    using assms(1) by (simp add: load_checkpoint_def)
  moreover have "schedule Map.empty None parts = Inr (number 0 (chapters (drop 1 parts)))"
    using schedule_loop_uncapped [OF _ ev, of None Map.empty 0 "[]"]
    by (simp add: schedule_def cap_reached_def)
  ultimately show ?thesis by simp
qed

theorem missing_checkpoint_is_empty_witness:
  "checkpoint_file fresh = Missing \<and> odd (length example_parts)
   \<and> load_checkpoint fresh = Inr Map.empty
   \<and> schedule Map.empty None example_parts = Inr [(title1, text1, 1), (title2, text2, 2)]"
proof -
  have a: "checkpoint_file fresh = Missing" by (simp add: fresh_def)
  have b: "odd (length example_parts)" by (simp add: example_parts_def)
  show ?thesis using a b missing_checkpoint_is_empty [OF a b]
    by (simp add: example_parts_def example_simps)
qed

section \<open>Evaluating workers on the small document\<close>

lemma strip_text: "strip text1 = text1" "strip text2 = text2"
  by (simp_all add: strip_def text1_def text2_def py_isspace_def)

lemma worker_first_try:
  "env 1 = Response 200 (Some c) True \<Longrightarrow> call_openai_format env title body n 5 s =
     (Some (title, title @ [TAB] @ replace_nl_escaped (strip c)),
      s\<lparr>output_dir := AList.update (output_name title n) (title @ [NL, NL] @ strip c) (output_dir s)\<rparr>)"
  by (simp add: call_openai_format_def attempts.simps try_once_def Let_def)

section \<open>Failure and the checkpoint\<close>




text \<open>
  Claim C9. The checkpoint a run saves extends the one it loaded: every loaded entry is
  kept with its value, every key the run adds maps to \<open>"done"\<close>, and if all loaded
  values are \<open>"done"\<close> then so are all saved ones.
\<close>
theorem checkpoint_only_grows:
  assumes "load_checkpoint s = Inr cp" and "schedule cp cap parts = Inr tasks"
  shows "\<exists>saved. checkpoint_file (snd (split_and_process_async cap world parts s)) = Stored saved
           \<and> cp \<subseteq>\<^sub>m saved
           \<and> (\<forall>k. cp k = None \<and> saved k \<noteq> None \<longrightarrow> saved k = Some done_marker)
           \<and> ((\<forall>v\<in>ran cp. v = done_marker) \<longrightarrow> (\<forall>v\<in>ran saved. v = done_marker))"
proof -
  obtain rs s1 where g: "gather world tasks s = (rs, s1)" by (cases "gather world tasks s")
  let ?saved = "mark_done cp rs"
  have new: "\<forall>t\<in>set tasks. cp (fst t) = None"
    using assms(2) schedule_loop_new [of cp cap "drop 1 parts" 0 "[]" tasks]
    by (simp add: schedule_def)
  have kept: "?saved k = cp k" if "cp k \<noteq> None" for k
  proof -
    have "\<not> (\<exists>line. Some (k, line) \<in> set rs)"
    proof
      assume "\<exists>line. Some (k, line) \<in> set rs"
      then obtain line where "Some (k, line) \<in> set rs" ..
      from gather_results [OF g this] obtain body n where "(k, body, n) \<in> set tasks" by blast
      with new have "cp k = None" by force
      with that show False by simp
    qed
    then show ?thesis by (simp add: mark_done_apply)
  qed
  have sub: "cp \<subseteq>\<^sub>m ?saved"
    unfolding map_le_def using kept by (auto simp: dom_def)
  have added: "\<forall>k. cp k = None \<and> ?saved k \<noteq> None \<longrightarrow> ?saved k = Some done_marker"
    by (auto simp: mark_done_apply split: if_splits)
  have pres: "(\<forall>v\<in>ran cp. v = done_marker) \<longrightarrow> (\<forall>v\<in>ran ?saved. v = done_marker)"
    by (auto simp: ran_def mark_done_apply split: if_splits)
  from run_saves [OF assms, of world] g sub added pres show ?thesis by simp
qed

lemma worker_text2:
  "call_openai_format (world_text2 n) title body n 5 s =
     (Some (title, title @ [TAB] @ replace_nl_escaped text2),
      s\<lparr>output_dir := AList.update (output_name title n) (title @ [NL, NL] @ text2) (output_dir s)\<rparr>)"
  using worker_first_try [of "world_text2 n" text2] by (simp add: world_text2_def strip_text)

lemma escaped_text: "replace_nl_escaped text1 = text1" "replace_nl_escaped text2 = text2"
  by (simp_all add: replace_nl_escaped_def text1_def text2_def NL_def)

lemma gather_resumed:
  "fst (gather world_text2 [(title2, text2, 1)] resumed) = [Some (title2, title2 @ [TAB] @ text2)]"
  by (simp add: worker_text2 escaped_text)

theorem checkpoint_only_grows_witness:
  "load_checkpoint resumed = Inr [title1 \<mapsto> done_marker]
   \<and> schedule [title1 \<mapsto> done_marker] None example_parts = Inr [(title2, text2, 1)]
   \<and> (\<exists>saved. checkpoint_file (snd (split_and_process_async None world_text2 example_parts resumed))
                  = Stored saved
         \<and> saved title1 = Some done_marker \<and> saved title2 = Some done_marker)"
proof -
  have a: "load_checkpoint resumed = Inr [title1 \<mapsto> done_marker]"
    by (simp add: load_checkpoint_def resumed_def)
  have b: "schedule [title1 \<mapsto> done_marker] None example_parts = Inr [(title2, text2, 1)]"
    by (rule schedule_resumed)
  from checkpoint_only_grows [OF a b, of world_text2]
  obtain saved where s: "checkpoint_file (snd (split_and_process_async None world_text2 example_parts resumed)) = Stored saved"
    and sub: "[title1 \<mapsto> done_marker] \<subseteq>\<^sub>m saved" by blast
  from sub have "saved title1 = Some done_marker" by (auto simp: map_le_def)
  moreover have "saved = mark_done [title1 \<mapsto> done_marker] [Some (title2, title2 @ [TAB] @ text2)]"
    using s run_saves [OF a b, of world_text2] unfolding gather_resumed by simp
  then have "saved title2 = Some done_marker" by simp
  ultimately show ?thesis using a b s by blast
qed

section \<open>Evaluating the aggregator on the small document\<close>

lemma replicate_numeral_unfold: "replicate (numeral v) x = x # replicate (numeral v - 1) x"
  by (simp add: numeral_eq_Suc)

lemma fmt04d_1: "fmt04d (Suc 0) = [48, 48, 48, 49]"
  by (simp add: fmt04d_def dec_digits.simps replicate_numeral_unfold)

lemma fmt04d_2: "fmt04d 2 = [48, 48, 48, 50]"
  by (simp add: fmt04d_def dec_digits.simps replicate_numeral_unfold)

lemma names:
  "output_name title1 (Suc 0) = [48, 48, 48, 49, 32] @ title1 @ dot_txt"
  "output_name title2 (Suc 0) = [48, 48, 48, 49, 32] @ title2 @ dot_txt"
  "output_name title2 2 = [48, 48, 48, 50, 32] @ title2 @ dot_txt"
  by (simp_all add: output_name_def fmt04d_1 fmt04d_2 SP_def)

lemma names_order:
  "output_name title1 (Suc 0) \<le> output_name title2 2"
  "\<not> output_name title2 2 \<le> output_name title1 (Suc 0)"
  by (simp_all add: names)

lemma names_differ: "output_name title1 (Suc 0) \<noteq> output_name title2 2"
  "output_name title2 2 \<noteq> output_name title1 (Suc 0)"
  "output_name title2 (Suc 0) \<noteq> output_name title2 2"
  by (simp_all add: names)

lemma names_txt: "endswith (output_name title1 (Suc 0)) dot_txt" "endswith (output_name title2 2) dot_txt"
  "endswith (output_name title2 (Suc 0)) dot_txt"
  unfolding names by (simp_all add: endswith_def title1_def title2_def dot_txt_def)

lemma entry1:
  "readlines (title1 @ NL # NL # text1) = [title1 @ [NL], [NL], text1]"
  by (simp add: readlines_def title1_def text1_def NL_def CR_def)

lemma entry2:
  "readlines (title2 @ NL # NL # text2) = [title2 @ [NL], [NL], text2]"
  by (simp add: readlines_def title2_def text2_def NL_def CR_def)

lemma strip_line: "strip (title1 @ [NL]) = title1" "strip (title2 @ [NL]) = title2"
  by (simp_all add: strip_def title1_def title2_def NL_def py_isspace_def)

lemma drop_titles: "drop 4 title1 = [36215, 65288, 24207, 65289]" "drop 4 title2 = [32456, 65288, 23614, 65289]"
  by (simp_all add: title1_def title2_def)

lemmas aggregate_simps = names_order names_differ names_txt entry1 entry2 strip_line drop_titles strip_text

lemma regenerate_a: "regenerate_tsv_from_output listing_a = Inr (listing_a\<lparr>tsv_file := Some consolidated\<rparr>)"
  by (simp add: regenerate_tsv_from_output_def listing_a_def aggregate_simps consolidated_def)

lemma regenerate_b: "regenerate_tsv_from_output listing_b = Inr (listing_b\<lparr>tsv_file := Some consolidated\<rparr>)"
  by (simp add: regenerate_tsv_from_output_def listing_b_def aggregate_simps consolidated_def)

section \<open>The aggregator\<close>

lemma read_entries_map_of:
  "map_of d = map_of d' \<Longrightarrow> read_entries d names = read_entries d' names"
  by (induction names) (auto simp: Let_def split: option.splits list.splits)

text \<open>
  Claim C8. The aggregator rebuilds the consolidated file from the output directory
  alone: run again on the state it left, it succeeds again and leaves the same state,
  so the two consolidated files are identical; and any state with the same files, in
  whatever order the directory enumerates them and whatever the consolidated file held
  before, yields the same consolidated text.
\<close>
theorem aggregation_is_a_rebuild:
  assumes "distinct (map fst (output_dir a))" and "distinct (map fst (output_dir b))"
    and "set (output_dir a) = set (output_dir b)"
    and "regenerate_tsv_from_output a = Inr a'"
  shows "regenerate_tsv_from_output a' = Inr a'
       \<and> (\<exists>b'. regenerate_tsv_from_output b = Inr b' \<and> tsv_file b' = tsv_file a')"
proof -
  have names: "sort (map fst (output_dir a)) = sort (map fst (output_dir b))"
  proof (rule sorted_distinct_set_unique)
    show "set (sort (map fst (output_dir a))) = set (sort (map fst (output_dir b)))"
      using assms(3) by simp
  qed (use assms(1,2) in simp_all)
  have files: "map_of (output_dir a) = map_of (output_dir b)"
    using assms(1,2,3) by (simp add: map_of_inject_set)
  obtain entries where e: "read_entries (output_dir a) (sort (map fst (output_dir a))) = Inr entries"
    and a': "a' = a\<lparr>tsv_file := Some (concat (map (\<lambda>line. line @ [NL]) entries))\<rparr>"
    using assms(4) by (auto simp: regenerate_tsv_from_output_def split: sum.splits)
  have "regenerate_tsv_from_output a' = Inr a'"
    using e a' by (simp add: regenerate_tsv_from_output_def)
  moreover have "read_entries (output_dir b) (sort (map fst (output_dir b))) = Inr entries"
    using e names read_entries_map_of [OF files] by simp
  then have "regenerate_tsv_from_output b =
      Inr (b\<lparr>tsv_file := Some (concat (map (\<lambda>line. line @ [NL]) entries))\<rparr>)"
    by (simp add: regenerate_tsv_from_output_def)
  ultimately show ?thesis using a' by simp
qed

theorem aggregation_is_a_rebuild_witness:
  "distinct (map fst (output_dir listing_a)) \<and> distinct (map fst (output_dir listing_b))
   \<and> set (output_dir listing_a) = set (output_dir listing_b)
   \<and> regenerate_tsv_from_output listing_a = Inr (listing_a\<lparr>tsv_file := Some consolidated\<rparr>)
   \<and> regenerate_tsv_from_output (listing_a\<lparr>tsv_file := Some consolidated\<rparr>)
       = Inr (listing_a\<lparr>tsv_file := Some consolidated\<rparr>)
   \<and> (\<exists>b'. regenerate_tsv_from_output listing_b = Inr b' \<and> tsv_file b' = Some consolidated)"
proof -
  have a: "distinct (map fst (output_dir listing_a))"
    by (simp add: listing_a_def names_differ)
  have b: "distinct (map fst (output_dir listing_b))"
    by (simp add: listing_b_def names_differ)
  have c: "set (output_dir listing_a) = set (output_dir listing_b)"
    by (auto simp: listing_a_def listing_b_def)
  have d: "regenerate_tsv_from_output listing_a = Inr (listing_a\<lparr>tsv_file := Some consolidated\<rparr>)"
    by (rule regenerate_a)
  show ?thesis using a b c d aggregation_is_a_rebuild [OF a b c d] by simp
qed

section \<open>Two runs on the small document\<close>

lemma worker_ok:
  "call_openai_format (world_ok n) title body n 5 s =
     (Some (title, title @ [TAB] @ replace_nl_escaped (if n = 1 then text1 else text2)),
      s\<lparr>output_dir := AList.update (output_name title n)
           (title @ [NL, NL] @ (if n = 1 then text1 else text2)) (output_dir s)\<rparr>)"
  using worker_first_try [of "world_ok n" "if n = 1 then text1 else text2"]
  by (simp add: world_ok_def strip_text)

lemma gather_fresh:
  "snd (gather world_ok [(title1, text1, 1), (title2, text2, 2)] fresh) =
     fresh\<lparr>output_dir := [(output_name title1 1, title1 @ [NL, NL] @ text1),
                          (output_name title2 2, title2 @ [NL, NL] @ text2)]\<rparr>"
  by (simp add: worker_ok fresh_def names_differ)

lemma gather_resumed_files:
  "snd (gather world_text2 [(title2, text2, 1)] resumed) =
     resumed\<lparr>output_dir := [(output_name title2 1, title2 @ [NL, NL] @ text2)]\<rparr>"
  by (simp add: worker_text2 resumed_def)

lemma run_fresh:
  "snd (split_and_process_async None world_ok example_parts fresh) =
     \<lparr>output_dir = [(output_name title1 1, title1 @ [NL, NL] @ text1),
                    (output_name title2 2, title2 @ [NL, NL] @ text2)],
      checkpoint_file = Stored (mark_done Map.empty (fst (gather world_ok [(title1, text1, 1), (title2, text2, 2)] fresh))),
      tsv_file = Some consolidated\<rparr>"
proof -
  obtain rs s1 where g: "gather world_ok [(title1, text1, 1), (title2, text2, 2)] fresh = (rs, s1)"
    by (cases "gather world_ok [(title1, text1, 1), (title2, text2, 2)] fresh")
  with gather_fresh have s1: "s1 = fresh\<lparr>output_dir := [(output_name title1 1, title1 @ [NL, NL] @ text1),
                          (output_name title2 2, title2 @ [NL, NL] @ text2)]\<rparr>" by simp
  have agg: "regenerate_tsv_from_output (save_checkpoint (mark_done Map.empty rs) s1) =
     Inr ((save_checkpoint (mark_done Map.empty rs) s1)\<lparr>tsv_file := Some consolidated\<rparr>)"
    unfolding s1
    by (simp add: regenerate_tsv_from_output_def save_checkpoint_def fresh_def aggregate_simps consolidated_def)
  have "load_checkpoint fresh = Inr Map.empty" by (simp add: load_checkpoint_def fresh_def)
  then show ?thesis
    unfolding split_and_process_async_def using schedule_fresh g agg
    by (simp add: Let_def s1 save_checkpoint_def fresh_def)
qed

text \<open>
  Claim C1 says that the block of a chapter in the consolidated file begins with the
  title line as the output file stores it. The worker stores the title without any
  ordinal in front (\<open>title + '\n\n' + result\<close>), and the aggregator removes four
  characters from that line (\<open>lines[0].strip()[4:]\<close>, commented as the original
  title). On the small document, with both requests answered at once: the output file of
  chapter 1 begins with the whole title, and the consolidated text begins with the title
  less its first four characters; likewise for chapter 2.
\<close>
theorem aggregator_cuts_into_title:
  "map_of (output_dir (snd (split_and_process_async None world_ok example_parts fresh)))
      (output_name title1 1) = Some (title1 @ [NL, NL] @ text1)
   \<and> tsv_file (snd (split_and_process_async None world_ok example_parts fresh))
      = Some ([36215, 65288, 24207, 65289] @ [NL] @ text1 @ [NL, NL]
              @ [32456, 65288, 23614, 65289] @ [NL] @ text2 @ [NL, NL])
   \<and> title1 = [31532, 49, 31456, 32] @ [36215, 65288, 24207, 65289]"
  by (simp add: run_fresh consolidated_def title1_def)

text \<open>
  Claim C2 says that the output path of a chapter carries its position in the document
  and does not depend on the checkpoint. \<open>chapter_num\<close> is incremented after the
  checkpoint test, so it counts the chapters scheduled in this run. On the small
  document, chapter 2 is written to \<open>0002 ...\<close> by a run that starts with no checkpoint
  and to \<open>0001 ...\<close> by a run that starts with chapter 1 checkpointed.
\<close>
theorem ordinal_restarts_on_resumed_run:
  "map fst (output_dir (snd (split_and_process_async None world_ok example_parts fresh)))
     = [output_name title1 1, output_name title2 2]
   \<and> output_path title2 2 = OUTPUT_DIR @ [47] @ [48, 48, 48, 50, 32] @ title2 @ dot_txt
   \<and> schedule [title1 \<mapsto> done_marker] None example_parts = Inr [(title2, text2, 1)]
   \<and> fst (gather world_text2 [(title2, text2, 1)] resumed) = [Some (title2, title2 @ [TAB] @ text2)]
   \<and> map fst (output_dir (snd (gather world_text2 [(title2, text2, 1)] resumed)))
     = [output_name title2 1]
   \<and> output_path title2 1 = OUTPUT_DIR @ [47] @ [48, 48, 48, 49, 32] @ title2 @ dot_txt
   \<and> output_path title2 1 \<noteq> output_path title2 2"
  by (simp add: run_fresh schedule_resumed worker_text2 escaped_text resumed_def
        output_path_def os_path_join_def names OUTPUT_DIR_def)

end
